theory Spec2Isabelle
  imports Complex_Main "HOL-Library.Sublist" "HOL-Library.List_Lexorder"
begin

section \<open>Python strings\<close>

text \<open>
  A Python \<open>str\<close> is a sequence of Unicode code points, so a string is modelled as a
  list of code points: \<open>len\<close> is \<open>length\<close>, and the dash of the masked label and the
  ellipsis of a truncated label count as one character each, as they do in Python.
  \<open>u\<close> reads an ASCII literal.
\<close>

type_synonym pystr = "nat list"

definition u :: "string \<Rightarrow> pystr" where
  "u cs = map of_char cs"

text \<open>
  \<open>str.strip\<close>, \<open>str.rstrip\<close> and the regular expression class \<open>\s\<close> (on a \<open>str\<close>
  pattern) use the same test, the interpreter's table of Unicode whitespace:
  U+0009..U+000D, U+001C..U+0020, U+0085, U+00A0, U+1680, U+2000..U+200A, U+2028,
  U+2029, U+202F, U+205F and U+3000.
\<close>

definition isspace :: "nat \<Rightarrow> bool" where
  "isspace c \<longleftrightarrow>
     (9 \<le> c \<and> c \<le> 13) \<or> (28 \<le> c \<and> c \<le> 32) \<or> c = 133 \<or> c = 160 \<or> c = 5760 \<or>
     (8192 \<le> c \<and> c \<le> 8202) \<or> c = 8232 \<or> c = 8233 \<or> c = 8239 \<or> c = 8287 \<or>
     c = 12288"

definition lstrip :: "pystr \<Rightarrow> pystr" where
  "lstrip s = dropWhile isspace s"

definition rstrip :: "pystr \<Rightarrow> pystr" where
  "rstrip s = rev (dropWhile isspace (rev s))"

definition strip :: "pystr \<Rightarrow> pystr" where
  "strip s = rstrip (lstrip s)"

text \<open>
  \<open>str.lower\<close>. On a string of ASCII characters it maps \<open>A..Z\<close> to \<open>a..z\<close> and
  leaves every other character alone. On any other string the result comes from the
  interpreter's Unicode case tables, which are not part of the program: they are the
  parameter \<open>ul\<close>, and every theorem below holds for every such table.
\<close>

definition ascii_lower :: "nat \<Rightarrow> nat" where
  "ascii_lower c = (if 65 \<le> c \<and> c \<le> 90 then c + 32 else c)"

definition isascii :: "pystr \<Rightarrow> bool" where
  "isascii s = list_all (\<lambda>c. c < 128) s"

definition lower :: "(pystr \<Rightarrow> pystr) \<Rightarrow> pystr \<Rightarrow> pystr" where
  "lower ul s = (if isascii s then map ascii_lower s else ul s)"

text \<open>\<open>s.split(sep)\<close> for a separator of one character: never an empty list.\<close>

fun str_split :: "nat \<Rightarrow> pystr \<Rightarrow> pystr list" where
  "str_split sep [] = [[]]"
| "str_split sep (c # cs) =
     (if c = sep then [] # str_split sep cs
      else (case str_split sep cs of
              [] \<Rightarrow> [[c]]
            | p # ps \<Rightarrow> (c # p) # ps))"

text \<open>
  \<open>sep.join(ps)\<close> for a separator of one character: the inverse of \<open>split\<close>, used
  below to say what \<open>split\<close> computes.
\<close>

definition str_join :: "nat \<Rightarrow> pystr list \<Rightarrow> pystr" where
  "str_join sep ps = (case ps of [] \<Rightarrow> [] | p # qs \<Rightarrow> p @ concat (map (\<lambda>q. sep # q) qs))"

text \<open>\<open>t in s\<close> on strings: \<open>t\<close> occurs in \<open>s\<close> as a contiguous run.\<close>

fun str_in :: "pystr \<Rightarrow> pystr \<Rightarrow> bool" where
  "str_in t [] = (t = [])"
| "str_in t (c # cs) = (prefix t (c # cs) \<or> str_in t cs)"

text \<open>
  \<open>sorted(set(xs))\<close> on strings: duplicates removed, then ascending in Python's string
  order, which compares code point by code point and puts a proper prefix first; that
  is the lexicographic order on lists.
\<close>

definition sorted_set :: "pystr list \<Rightarrow> pystr list" where
  "sorted_set xs = sort (remdups xs)"

section \<open>Configuration\<close>

definition SAFE_MASK_MESSAGE :: pystr where
  "SAFE_MASK_MESSAGE = u ''Working '' @ [8212] @ u '' details hidden''"

definition SAFE_IDLE_MESSAGE :: pystr where
  "SAFE_IDLE_MESSAGE = u ''Idle''"

definition DEFAULT_SENSITIVE_TERMS :: "pystr list" where
  "DEFAULT_SENSITIVE_TERMS =
     [u ''companyname'', u ''confidential'', u ''privacy'', u ''secret'', u ''nces'',
      u ''budget'', u ''invoice'', u ''payroll'', u ''student'', u ''medical'',
      u ''legal'', u ''hr'', u ''finance'', u ''salary'', u ''contract'', u ''nda'']"

definition BROWSERS :: "pystr list" where
  "BROWSERS =
     [u ''chrome.exe'', u ''msedge.exe'', u ''firefox.exe'', u ''brave.exe'',
      u ''opera.exe'', u ''vivaldi.exe'']"

definition APP_MAP :: "(pystr \<times> pystr) list" where
  "APP_MAP =
     [(u ''excel.exe'', u ''Working in Excel''),
      (u ''winword.exe'', u ''Working in Word''),
      (u ''powerpnt.exe'', u ''Working in PowerPoint''),
      (u ''notepad.exe'', u ''Editing Text''),
      (u ''code.exe'', u ''Coding in VS Code''),
      (u ''pycharm64.exe'', u ''Coding in PyCharm'')]"

text \<open>
  The process environment is a map from names to values; \<open>os.getenv name\<close> is the
  lookup. \<open>getenv_str\<close> treats a missing and a blank value alike.
\<close>

type_synonym environ = "pystr \<rightharpoonup> pystr"

definition getenv_str :: "environ \<Rightarrow> pystr \<Rightarrow> pystr option \<Rightarrow> pystr option" where
  "getenv_str env name dflt =
     (case env name of
        None \<Rightarrow> dflt
      | Some v \<Rightarrow> if strip v \<noteq> [] then Some v else dflt)"

text \<open>
  \<open>parse_mask_terms\<close>: the \<open>else\<close> of the source belongs to \<open>if env\<close>, so the defaults
  are taken when \<open>getenv_str\<close> gave nothing (or an empty string), not when the loop
  appended nothing.
\<close>

definition env_terms :: "(pystr \<Rightarrow> pystr) \<Rightarrow> pystr \<Rightarrow> pystr list" where
  "env_terms ul e =
     map (lower ul) (filter (\<lambda>t. t \<noteq> []) (map strip (str_split 44 e)))"

definition parse_mask_terms :: "(pystr \<Rightarrow> pystr) \<Rightarrow> environ \<Rightarrow> pystr list" where
  "parse_mask_terms ul env =
     (let terms =
        (case getenv_str env (u ''MASK_TERMS'') None of
           None \<Rightarrow> DEFAULT_SENSITIVE_TERMS
         | Some e \<Rightarrow> if e \<noteq> [] then env_terms ul e else DEFAULT_SENSITIVE_TERMS)
      in sorted_set (map (lower ul) terms))"

section \<open>The term matcher\<close>

text \<open>
  \<open>title_has_sensitive_term\<close> reads the module's \<open>SENSITIVE_TERMS\<close>, fixed at start-up
  as \<open>parse_mask_terms()\<close>; here it is the argument \<open>terms\<close>. The loop returns at the
  first term that is not empty and occurs in the lowered title.
\<close>

fun any_term_in :: "pystr list \<Rightarrow> pystr \<Rightarrow> bool" where
  "any_term_in [] low = False"
| "any_term_in (t # ts) low = (if t \<noteq> [] \<and> str_in t low then True else any_term_in ts low)"

definition title_has_sensitive_term :: "(pystr \<Rightarrow> pystr) \<Rightarrow> pystr list \<Rightarrow> pystr \<Rightarrow> bool" where
  "title_has_sensitive_term ul terms title = any_term_in terms (lower ul title)"

section \<open>Regular expressions\<close>

text \<open>
  The two patterns of the program. \<open>re.sub(r"\s+", " ", t)\<close> replaces every maximal
  run of whitespace by one space.
\<close>

function collapse_ws :: "pystr \<Rightarrow> pystr" where
  "collapse_ws [] = []"
| "collapse_ws (c # cs) =
     (if isspace c then 32 # collapse_ws (dropWhile isspace cs) else c # collapse_ws cs)"
  by pat_completeness auto
termination
  by (relation "measure length") (auto simp: length_dropWhile_le less_Suc_eq_le)

text \<open>
  \<open>DOMAIN_RE\<close> is matched by backtracking. A pattern is a character class, a
  sequence, a greedy option \<open>r?\<close> or a greedy repetition \<open>r{lo,hi}\<close> (no \<open>hi\<close>: unbounded).
  \<open>ends r s\<close> lists what is left of \<open>s\<close> after each way \<open>r\<close> matches a prefix of it, in
  the order in which the matcher tries them: the longer repetition before the shorter,
  the option taken before the option skipped. The match the matcher reports is the
  first of the list. Each round of the repetitions below consumes a character, so the
  length of the input bounds the rounds of an unbounded one.
\<close>

datatype re =
  Chr "nat \<Rightarrow> bool"
| Seq re re
| Opt re
| Rep nat "nat option" re

fun rep :: "(pystr \<Rightarrow> pystr list) \<Rightarrow> nat \<Rightarrow> nat \<Rightarrow> pystr \<Rightarrow> pystr list" where
  "rep f lo 0 s = (if lo = 0 then [s] else [])"
| "rep f lo (Suc n) s =
     concat (map (rep f (lo - 1) n) (f s)) @ (if lo = 0 then [s] else [])"

primrec ends :: "re \<Rightarrow> pystr \<Rightarrow> pystr list" where
  "ends (Chr p) = (\<lambda>s. case s of [] \<Rightarrow> [] | c # cs \<Rightarrow> if p c then [cs] else [])"
| "ends (Seq a b) = (\<lambda>s. concat (map (ends b) (ends a s)))"
| "ends (Opt a) = (\<lambda>s. ends a s @ [s])"
| "ends (Rep lo hi a) =
     (\<lambda>s. rep (ends a) lo (case hi of None \<Rightarrow> length s | Some h \<Rightarrow> h) s)"

text \<open>\<open>r.match\<close> at the start of \<open>s\<close>: the text matched, if any.\<close>

definition re_match :: "re \<Rightarrow> pystr \<Rightarrow> pystr option" where
  "re_match r s =
     (case ends r s of
        [] \<Rightarrow> None
      | rest # _ \<Rightarrow> Some (take (length s - length rest) s))"

text \<open>\<open>r.search\<close>: the match at the leftmost position that has one.\<close>

fun re_search :: "re \<Rightarrow> pystr \<Rightarrow> pystr option" where
  "re_search r [] = re_match r []"
| "re_search r (c # cs) =
     (case re_match r (c # cs) of
        Some m \<Rightarrow> Some m
      | None \<Rightarrow> re_search r cs)"

text \<open>
  The classes of \<open>DOMAIN_RE\<close> under \<open>re.IGNORECASE\<close>. On a \<open>str\<close> pattern the flag makes
  \<open>[a-z]\<close> accept, besides the ASCII letters of both cases, the four characters whose
  case mapping meets them: U+0130, U+0131, U+017F and U+212A.
\<close>

definition re_alpha :: "nat \<Rightarrow> bool" where
  "re_alpha c \<longleftrightarrow>
     (97 \<le> c \<and> c \<le> 122) \<or> (65 \<le> c \<and> c \<le> 90) \<or> c = 304 \<or> c = 305 \<or> c = 383 \<or> c = 8490"

definition re_alnum :: "nat \<Rightarrow> bool" where
  "re_alnum c \<longleftrightarrow> re_alpha c \<or> (48 \<le> c \<and> c \<le> 57)"

definition re_label_char :: "nat \<Rightarrow> bool" where
  "re_label_char c \<longleftrightarrow> re_alnum c \<or> c = 45"

definition re_dot :: "nat \<Rightarrow> bool" where
  "re_dot c \<longleftrightarrow> c = 46"

text \<open>
  The group \<open>host\<close> of \<open>DOMAIN_RE\<close>:
  \<^verbatim>\<open>(?:[a-z0-9](?:[a-z0-9-]{0,61}[a-z0-9])?\.)+[a-z]{2,}\<close>.
  The port \<^verbatim>\<open>(?::\d+)?\<close> that follows the group is optional, so it never makes a match
  fail and never changes what the group holds: \<open>m.group("host")\<close> is the match of this
  pattern.
\<close>

definition DOMAIN_LABEL :: re where
  "DOMAIN_LABEL =
     Seq (Chr re_alnum) (Opt (Seq (Rep 0 (Some 61) (Chr re_label_char)) (Chr re_alnum)))"

definition DOMAIN_RE :: re where
  "DOMAIN_RE =
     Seq (Rep 1 None (Seq DOMAIN_LABEL (Chr re_dot))) (Rep 2 None (Chr re_alpha))"

section \<open>The label classifier\<close>

text \<open>\<open>t[:k]\<close>: a negative \<open>k\<close> counts from the end.\<close>

definition slice_to :: "int \<Rightarrow> pystr \<Rightarrow> pystr" where
  "slice_to k t = (if 0 \<le> k then take (nat k) t else take (length t - nat (- k)) t)"

definition sanitize_title_to_short_label :: "pystr \<Rightarrow> int \<Rightarrow> pystr" where
  "sanitize_title_to_short_label title max_len =
     (let t0 = strip title;
          t1 = collapse_ws t0;
          t2 = (if int (length t1) > max_len
                then rstrip (slice_to (max_len - 1) t1) @ [8230]
                else t1)
      in if t2 \<noteq> [] then t2 else SAFE_IDLE_MESSAGE)"

text \<open>
  \<open>derive_label\<close> returns the label and the image key, which is always \<open>None\<close>. The
  default \<open>max_len = 40\<close> of the sanitizer is what both calls use.
\<close>

definition derive_label ::
  "(pystr \<Rightarrow> pystr) \<Rightarrow> pystr list \<Rightarrow> pystr \<Rightarrow> pystr \<Rightarrow> pystr \<times> pystr option" where
  "derive_label ul terms title exe =
     (if title_has_sensitive_term ul terms title then (SAFE_MASK_MESSAGE, None)
      else if title = [] then (SAFE_IDLE_MESSAGE, None)
      else if exe \<in> set BROWSERS then
        (case re_search DOMAIN_RE title of
           Some host \<Rightarrow> (u ''Browsing '' @ lower ul host, None)
         | None \<Rightarrow> (u ''Browsing '' @ sanitize_title_to_short_label title 40, None))
      else
        (case map_of APP_MAP exe of
           Some label \<Rightarrow> (label, None)
         | None \<Rightarrow> (sanitize_title_to_short_label title 40, None)))"

section \<open>The presence session\<close>

text \<open>
  \<open>PresenceClient\<close> drives a channel object of the \<open>pypresence\<close> library. The library
  is outside the program, so the channel is a parameter: a \<open>world\<close> tells, from the
  history so far, whether the next call on the channel returns (\<open>None\<close>) or raises.
  The exceptions are the classes the handlers of \<open>safe_update\<close> and \<open>main\<close> tell apart:
  \<open>InvalidPipe\<close> and \<open>InvalidID\<close> of the library, \<open>ConnectionRefusedError\<close>,
  \<open>AssertionError\<close>, any other subclass of \<open>Exception\<close>, and an exception that is not
  an \<open>Exception\<close> (such as \<open>KeyboardInterrupt\<close>).
\<close>

datatype exn =
  InvalidPipe
| ConnectionRefusedError
| InvalidID
| AssertionError
| OtherException
| OtherBaseException

definition is_Exception :: "exn \<Rightarrow> bool" where
  "is_Exception e \<longleftrightarrow> e \<noteq> OtherBaseException"

text \<open>
  The calls on the channel: the constructor \<open>Presence(client_id)\<close>, and the methods
  \<open>connect\<close>, \<open>update\<close>, \<open>clear\<close> and \<open>close\<close> of the object a constructor call made.
  An object is named by the length of the history at its construction, so two
  constructor calls never give the same object. The history also records every
  \<open>time.sleep\<close>. Logging changes nothing of the session and is left out.
\<close>

datatype call =
  Construct
| Connect nat
| Update nat pystr "pystr option"
| Clear nat
| Close nat

datatype event = Call call "exn option" | Sleep rat

type_synonym world = "event list \<Rightarrow> call \<Rightarrow> exn option"

text \<open>
  The fields \<open>_rpc\<close> and \<open>_connected\<close> of \<open>PresenceClient\<close>, and the history of what the
  session did. \<open>client_id\<close> and \<open>log\<close> never change.
\<close>

record state =
  rpc :: "nat option"
  connected :: bool
  trace :: "event list"

definition new_client :: state where
  "new_client = \<lparr>rpc = None, connected = False, trace = []\<rparr>"

text \<open>
  A function of the session returns \<open>Inr ()\<close> or raises \<open>Inl e\<close>, and the state it
  leaves. \<open>chan\<close> makes one call on the channel and records it with its outcome.
\<close>

definition chan :: "world \<Rightarrow> call \<Rightarrow> state \<Rightarrow> (exn + unit) \<times> state" where
  "chan w c s =
     (let r = w (trace s) c;
          s' = s\<lparr>trace := trace s @ [Call c r]\<rparr>
      in (case r of None \<Rightarrow> Inr () | Some e \<Rightarrow> Inl e, s'))"

definition sleep :: "rat \<Rightarrow> state \<Rightarrow> state" where
  "sleep d s = s\<lparr>trace := trace s @ [Sleep d]\<rparr>"

definition connect :: "world \<Rightarrow> state \<Rightarrow> (exn + unit) \<times> state" where
  "connect w s =
     (if connected s \<and> rpc s \<noteq> None then (Inr (), s)
      else
        let i = length (trace s) in
        case chan w Construct s of
          (Inl e, s1) \<Rightarrow> (Inl e, s1)
        | (Inr _, s1) \<Rightarrow>
            (case chan w (Connect i) (s1\<lparr>rpc := Some i\<rparr>) of
               (Inl e, s2) \<Rightarrow> (Inl e, s2)
             | (Inr _, s2) \<Rightarrow> (Inr (), s2\<lparr>connected := True\<rparr>)))"

text \<open>\<open>large_image\<close> enters the payload when it is neither \<open>None\<close> nor empty.\<close>

definition payload_image :: "pystr option \<Rightarrow> pystr option" where
  "payload_image large_image =
     (case large_image of
        None \<Rightarrow> None
      | Some img \<Rightarrow> if img \<noteq> [] then Some img else None)"

definition update :: "world \<Rightarrow> pystr \<Rightarrow> pystr option \<Rightarrow> state \<Rightarrow> (exn + unit) \<times> state" where
  "update w st large_image s =
     (case (if \<not> connected s \<or> rpc s = None then connect w s else (Inr (), s)) of
        (Inl e, s1) \<Rightarrow> (Inl e, s1)
      | (Inr _, s1) \<Rightarrow>
          (case rpc s1 of
             None \<Rightarrow> (Inl AssertionError, s1)
           | Some i \<Rightarrow> chan w (Update i st (payload_image large_image)) s1))"

text \<open>
  \<open>close\<close> is \<open>try: ... finally: ...\<close> with no \<open>except\<close>: the fields are reset whatever
  happened, and an exception of \<open>clear\<close> or \<open>close\<close> goes on to the caller. \<open>close\<close> of
  the channel is not called when \<open>clear\<close> raised.
\<close>

definition close :: "world \<Rightarrow> state \<Rightarrow> (exn + unit) \<times> state" where
  "close w s =
     (case (case rpc s of
              None \<Rightarrow> (Inr (), s)
            | Some i \<Rightarrow>
                (case chan w (Clear i) s of
                   (Inl e, s1) \<Rightarrow> (Inl e, s1)
                 | (Inr _, s1) \<Rightarrow> chan w (Close i) s1)) of
        (r, s2) \<Rightarrow> (r, s2\<lparr>rpc := None, connected := False\<rparr>))"

text \<open>
  \<open>safe_update\<close> is \<open>while True\<close>: it may run forever, and then the model has no
  result (\<open>None\<close>). The backoff is a float in the source; its values are 1 multiplied
  by 2 and by 1.5 and capped at 16, which floats hold exactly, so it is a rational
  here. An exception of the reconnect attempt that its \<open>except\<close> does not name leaves
  \<open>safe_update\<close>, as does one that is not an \<open>Exception\<close>.
\<close>

definition max_backoff :: rat where
  "max_backoff = 16"

partial_function (option) safe_update_loop ::
  "world \<Rightarrow> pystr \<Rightarrow> pystr option \<Rightarrow> rat \<Rightarrow> state \<Rightarrow> ((exn + unit) \<times> state) option" where
  "safe_update_loop w st large_image backoff s =
     (case update w st large_image s of
        (Inr _, s1) \<Rightarrow> Some (Inr (), s1)
      | (Inl e, s1) \<Rightarrow>
          if e = InvalidPipe \<or> e = ConnectionRefusedError then
            (let s2 = sleep backoff (s1\<lparr>connected := False\<rparr>);
                 backoff' = min max_backoff (backoff * 2)
             in case connect w s2 of
                  (Inr _, s3) \<Rightarrow> safe_update_loop w st large_image backoff' s3
                | (Inl e', s3) \<Rightarrow>
                    if e' = InvalidID \<or> e' = InvalidPipe \<or> e' = ConnectionRefusedError
                    then safe_update_loop w st large_image backoff' s3
                    else Some (Inl e', s3))
          else if e = InvalidID then Some (Inl e, s1)
          else if is_Exception e then
            safe_update_loop w st large_image (min max_backoff (backoff * (3 / 2)))
              (sleep backoff s1)
          else Some (Inl e, s1))"

definition safe_update ::
  "world \<Rightarrow> pystr \<Rightarrow> pystr option \<Rightarrow> state \<Rightarrow> ((exn + unit) \<times> state) option" where
  "safe_update w st large_image s = safe_update_loop w st large_image 1 s"

text \<open>
  The shutdown path of \<open>main\<close>: \<open>try: client.close() except Exception: pass\<close>.
\<close>

definition main_finally :: "world \<Rightarrow> state \<Rightarrow> (exn + unit) \<times> state" where
  "main_finally w s =
     (case close w s of
        (Inl e, s1) \<Rightarrow> if is_Exception e then (Inr (), s1) else (Inl e, s1)
      | (Inr _, s1) \<Rightarrow> (Inr (), s1))"

subsection \<open>Reading a history, and channels for the examples\<close>

text \<open>
  What a history shows: the sleeps in order, and how often the channel's \<open>connect\<close>
  and \<open>update\<close> were called.
\<close>

fun sleeps :: "event list \<Rightarrow> rat list" where
  "sleeps [] = []"
| "sleeps (Sleep d # h) = d # sleeps h"
| "sleeps (Call c r # h) = sleeps h"

fun is_update :: "event \<Rightarrow> bool" where
  "is_update (Call (Update i st img) r) = True"
| "is_update ev = False"

fun is_connect :: "event \<Rightarrow> bool" where
  "is_connect (Call (Connect i) r) = True"
| "is_connect ev = False"

fun is_call :: "event \<Rightarrow> bool" where
  "is_call (Call c r) = True"
| "is_call (Sleep d) = False"

definition n_updates :: "event list \<Rightarrow> nat" where
  "n_updates h = length (filter is_update h)"

definition n_connects :: "event list \<Rightarrow> nat" where
  "n_connects h = length (filter is_connect h)"

text \<open>
  Two channels to run the session against. \<open>scripted outs\<close> answers the \<open>k\<close>-th call
  made on it with the \<open>k\<close>-th entry of \<open>outs\<close>, and returns normally once the script is
  used up. \<open>update_fails n e\<close> raises \<open>e\<close> on the first \<open>n\<close> calls of \<open>update\<close> and returns
  normally on every other call.
\<close>

definition scripted :: "exn option list \<Rightarrow> world" where
  "scripted outs h c =
     (let k = length (filter is_call h) in if k < length outs then outs ! k else None)"

definition update_fails :: "nat \<Rightarrow> exn \<Rightarrow> world" where
  "update_fails n e h c =
     (case c of
        Update i st img \<Rightarrow> if n_updates h < n then Some e else None
      | _ \<Rightarrow> None)"

text \<open>
  The object a session holds was made by a constructor call of its history, so its
  name is smaller than the length of the history.
\<close>

definition rpc_known :: "state \<Rightarrow> bool" where
  "rpc_known s = (case rpc s of None \<Rightarrow> True | Some i \<Rightarrow> i < length (trace s))"

text \<open>
  A case table for an example outside ASCII. \<open>str.lower\<close> writes a capital sigma as
  the final form U+03C2 at the end of a word and as U+03C3 elsewhere, so it gives
  U+03C3 U+03B1 U+03C2 for the word U+03A3 U+0391 U+03A3 and U+03C3 U+03B1 U+03C3
  U+03B1 for U+03A3 U+0391 U+03A3 U+0391. \<open>sigma_lower\<close> holds these two values and
  leaves every other string as it is, as \<open>str.lower\<close> leaves a string of small letters.
\<close>

definition sigma_lower :: "pystr \<Rightarrow> pystr" where
  "sigma_lower s =
     (if s = [931, 913, 931] then [963, 945, 962]
      else if s = [931, 913, 931, 913] then [963, 945, 963, 945]
      else s)"

section \<open>Facts about the string operations\<close>

lemma str_in_sublist: "str_in t s \<longleftrightarrow> sublist t s"
  by (induction s) (simp_all add: sublist_Cons_right)

lemma str_split_not_Nil: "str_split sep s \<noteq> []"
  by (induction s) (auto split: list.splits)

lemma str_split_join: "str_join sep (str_split sep s) = s"
  by (induction s) (auto simp: str_join_def split: list.splits)

lemma str_split_no_sep: "p \<in> set (str_split sep s) \<Longrightarrow> sep \<notin> set p"
  by (induction s arbitrary: p) (auto split: list.splits if_splits)

lemma strip_Nil: "strip [] = []"
  by (simp add: strip_def lstrip_def rstrip_def)

lemma isascii_map_lower: "isascii s \<Longrightarrow> isascii (map ascii_lower s)"
  by (auto simp: isascii_def ascii_lower_def list_all_iff)

lemma lower_ascii_idem: "isascii s \<Longrightarrow> lower ul (lower ul s) = lower ul s"
  by (simp add: lower_def isascii_map_lower) (simp add: ascii_lower_def)

lemma lower_defaults: "map (lower ul) DEFAULT_SENSITIVE_TERMS = DEFAULT_SENSITIVE_TERMS"
  by (simp add: DEFAULT_SENSITIVE_TERMS_def lower_def isascii_def ascii_lower_def u_def)

lemma sorted_set_props:
  "sorted (sorted_set xs) \<and> distinct (sorted_set xs) \<and> set (sorted_set xs) = set xs"
  by (simp add: sorted_set_def)

lemma set_env_terms:
  "set (map (lower ul) (env_terms ul v))
   = (\<lambda>t. lower ul (lower ul (strip t))) ` {t \<in> set (str_split 44 v). strip t \<noteq> []}"
  by (auto simp: env_terms_def)

section \<open>The configured term set\<close>

text \<open>
  C8. With \<open>MASK_TERMS="Foo, BAR"\<close> the stored terms are exactly \<open>bar\<close>, \<open>foo\<close> in this
  order (lowered, trimmed, without duplicates, sorted), and the matcher answers true
  for the title \<open>this has foo in it\<close>.
\<close>

theorem mask_terms_foo_bar:
  "parse_mask_terms ul [u ''MASK_TERMS'' \<mapsto> u ''Foo, BAR''] = [u ''bar'', u ''foo'']
   \<and> title_has_sensitive_term ul (parse_mask_terms ul [u ''MASK_TERMS'' \<mapsto> u ''Foo, BAR''])
        (u ''this has foo in it'')"
  by (simp add: parse_mask_terms_def getenv_str_def env_terms_def sorted_set_def
      title_has_sensitive_term_def lower_def isascii_def ascii_lower_def strip_def
      lstrip_def rstrip_def isspace_def u_def)

text \<open>
  C4 does not hold as stated: the defaults are the \<open>else\<close> of \<open>if env\<close>, not of an
  empty result. \<open>MASK_TERMS=",,,"\<close> is not blank, so \<open>getenv_str\<close> returns it, the loop
  drops every entry, and the stored set is empty.
\<close>

theorem mask_terms_commas_only:
  "strip (u '',,,'') \<noteq> []
   \<and> parse_mask_terms id [u ''MASK_TERMS'' \<mapsto> u '',,,''] = []
   \<and> set (parse_mask_terms id [u ''MASK_TERMS'' \<mapsto> u '',,,'']) \<noteq> set DEFAULT_SENSITIVE_TERMS"
  by (simp add: parse_mask_terms_def getenv_str_def env_terms_def sorted_set_def
      lower_def isascii_def ascii_lower_def strip_def lstrip_def rstrip_def isspace_def u_def
      DEFAULT_SENSITIVE_TERMS_def)

text \<open>
  C4, amended. The stored terms are sorted and free of duplicates. When \<open>MASK_TERMS\<close>
  is unset or blank they are the built-in defaults. Otherwise they are the entries
  between the commas of the value, each trimmed, those that are empty after trimming
  dropped, each lowered (\<open>lower\<close> is applied twice, which on ASCII text is the same
  as once, \<open>lower_ascii_idem\<close>); the defaults are not consulted, so a value of commas
  and whitespace only gives the empty set.
\<close>

theorem parse_mask_terms_result:
  "sorted (parse_mask_terms ul env) \<and> distinct (parse_mask_terms ul env) \<and>
   set (parse_mask_terms ul env) =
     (case env (u ''MASK_TERMS'') of
        None \<Rightarrow> set DEFAULT_SENSITIVE_TERMS
      | Some v \<Rightarrow>
          if strip v = [] then set DEFAULT_SENSITIVE_TERMS
          else (\<lambda>t. lower ul (lower ul (strip t))) ` {t \<in> set (str_split 44 v). strip t \<noteq> []})"
proof -
  have "set (parse_mask_terms ul env) =
     (case env (u ''MASK_TERMS'') of
        None \<Rightarrow> set DEFAULT_SENSITIVE_TERMS
      | Some v \<Rightarrow>
          if strip v = [] then set DEFAULT_SENSITIVE_TERMS
          else (\<lambda>t. lower ul (lower ul (strip t))) ` {t \<in> set (str_split 44 v). strip t \<noteq> []})"
  proof (cases "env (u ''MASK_TERMS'')")
    case None
    then show ?thesis
      by (simp add: parse_mask_terms_def getenv_str_def sorted_set_props lower_defaults)
  next
    case (Some v)
    show ?thesis
    proof (cases "strip v = []")
      case True
      with Some show ?thesis
        by (simp add: parse_mask_terms_def getenv_str_def sorted_set_props lower_defaults)
    next
      case False
      then have "v \<noteq> []" using strip_Nil by auto
      with Some False show ?thesis
        by (simp add: parse_mask_terms_def getenv_str_def sorted_set_props set_env_terms
            del: set_map)
    qed
  qed
  then show ?thesis
    by (simp add: parse_mask_terms_def sorted_set_props)
qed

section \<open>Facts about the classifier\<close>

lemma sublist_map_both: "sublist xs ys \<Longrightarrow> sublist (map f xs) (map f ys)"
  unfolding sublist_def by (metis map_append)

lemma any_term_in_iff: "any_term_in ts low \<longleftrightarrow> (\<exists>t \<in> set ts. t \<noteq> [] \<and> sublist t low)"
  by (induction ts) (auto simp: str_in_sublist)

text \<open>
  What the matcher decides: some configured term that is not empty occurs in the
  lowered title.
\<close>

lemma title_has_sensitive_term_iff:
  "title_has_sensitive_term ul terms title \<longleftrightarrow>
     (\<exists>t \<in> set terms. t \<noteq> [] \<and> sublist t (lower ul title))"
  by (simp add: title_has_sensitive_term_def any_term_in_iff)

lemma rep_suffix:
  assumes f: "\<And>s r. r \<in> set (f s) \<Longrightarrow> suffix r s"
  shows "r \<in> set (rep f lo n s) \<Longrightarrow> suffix r s"
proof (induction n arbitrary: lo s)
  case 0
  then show ?case by (simp split: if_splits)
next
  case (Suc n)
  then show ?case
    by (auto split: if_splits dest!: f intro: suffix_order.trans)
qed

lemma ends_suffix: "r \<in> set (ends p s) \<Longrightarrow> suffix r s"
proof (induction p arbitrary: r s)
  case (Chr x)
  then show ?case by (auto split: list.splits if_splits simp: suffix_Cons)
next
  case (Seq p1 p2)
  then show ?case by auto (blast intro: suffix_order.trans)
next
  case (Opt p)
  then show ?case by auto
next
  case (Rep lo hi p)
  then show ?case by (auto intro: rep_suffix)
qed

lemma no_dot_no_match: "46 \<notin> set s \<Longrightarrow> re_match DOMAIN_RE s = None"
proof -
  assume nd: "46 \<notin> set s"
  have "ends (Seq DOMAIN_LABEL (Chr re_dot)) s' = []" if "suffix s' s" for s'
  proof -
    have "ends (Chr re_dot) r = []" if "r \<in> set (ends DOMAIN_LABEL s')" for r
    proof -
      have "suffix r s" using ends_suffix[OF that] \<open>suffix s' s\<close> by (rule suffix_order.trans)
      then have "46 \<notin> set r" using nd by (auto simp: suffix_def)
      then show ?thesis by (cases r) (auto simp: re_dot_def)
    qed
    then show ?thesis by simp
  qed
  then have e: "ends (Seq DOMAIN_LABEL (Chr re_dot)) s = []" by blast
  have "rep (ends (Seq DOMAIN_LABEL (Chr re_dot))) 1 n s = []" for n
    using e by (cases n) simp_all
  then show ?thesis by (simp add: re_match_def DOMAIN_RE_def)
qed

lemma no_dot_no_host: "46 \<notin> set s \<Longrightarrow> re_search DOMAIN_RE s = None"
  by (induction s) (simp_all add: no_dot_no_match del: set_simps, auto simp: no_dot_no_match)

lemma length_rstrip_le: "length (rstrip s) \<le> length s"
  by (simp add: rstrip_def) (metis length_dropWhile_le length_rev)

lemma strip_blank: "list_all isspace s \<Longrightarrow> strip s = []"
proof -
  assume "list_all isspace s"
  then have d: "dropWhile isspace s = []"
    unfolding dropWhile_eq_Nil_conv list_all_iff .
  show ?thesis unfolding strip_def lstrip_def rstrip_def d by simp
qed

lemma length_sanitize_40: "length (sanitize_title_to_short_label title 40) \<le> 40"
proof -
  have "length (rstrip (slice_to 39 t) @ [8230]) \<le> 40" for t
    using length_rstrip_le [of "slice_to 39 t"] by (simp add: slice_to_def)
  then show ?thesis
    by (simp add: sanitize_title_to_short_label_def Let_def SAFE_IDLE_MESSAGE_def u_def)
qed

lemma sanitize_blank: "list_all isspace title \<Longrightarrow> sanitize_title_to_short_label title 40 = SAFE_IDLE_MESSAGE"
  by (simp add: sanitize_title_to_short_label_def strip_blank Let_def)

lemma app_not_browser: "map_of APP_MAP exe = Some l \<Longrightarrow> exe \<notin> set BROWSERS"
  by (auto simp: APP_MAP_def BROWSERS_def u_def split: if_splits)

lemmas str_eval = u_def lower_def isascii_def ascii_lower_def strip_def lstrip_def rstrip_def
  isspace_def title_has_sensitive_term_def DEFAULT_SENSITIVE_TERMS_def BROWSERS_def

section \<open>The classifier's decision order\<close>

text \<open>
  C1 does not hold as stated: the matcher looks for the lowered term in the lowered
  title, and \<open>str.lower\<close> depends on where a letter stands. With \<open>MASK_TERMS\<close> set to
  the word U+03A3 U+0391 U+03A3 the stored term ends in a final sigma. The title
  U+03A3 U+0391 U+03A3 U+0391 contains the configured word as it is written, and the
  word lowers to the stored term, but the lowered title does not contain the stored
  term: the title is not masked and comes back as the label.
\<close>

theorem final_sigma_title_not_masked:
  "parse_mask_terms sigma_lower [u ''MASK_TERMS'' \<mapsto> [931, 913, 931]] = [[963, 945, 962]]
   \<and> str_in [931, 913, 931] [931, 913, 931, 913]
   \<and> lower sigma_lower [931, 913, 931]
       \<in> set (parse_mask_terms sigma_lower [u ''MASK_TERMS'' \<mapsto> [931, 913, 931]])
   \<and> derive_label sigma_lower
        (parse_mask_terms sigma_lower [u ''MASK_TERMS'' \<mapsto> [931, 913, 931]])
        [931, 913, 931, 913] (u ''explorer.exe'')
       = ([931, 913, 931, 913], None)
   \<and> derive_label sigma_lower
        (parse_mask_terms sigma_lower [u ''MASK_TERMS'' \<mapsto> [931, 913, 931]])
        [931, 913, 931, 913] (u ''explorer.exe'')
       \<noteq> (SAFE_MASK_MESSAGE, None)"
proof -
  have p: "parse_mask_terms sigma_lower [u ''MASK_TERMS'' \<mapsto> [931, 913, 931]]
      = [[963, 945, 962]]"
    by (simp add: parse_mask_terms_def getenv_str_def env_terms_def sorted_set_def
        lower_def isascii_def sigma_lower_def strip_def lstrip_def rstrip_def isspace_def)
  have l: "lower sigma_lower [931, 913, 931] = [963, 945, 962]"
    by (simp add: lower_def isascii_def sigma_lower_def)
  have n: "\<not> title_has_sensitive_term sigma_lower [[963, 945, 962]] [931, 913, 931, 913]"
    by (simp add: title_has_sensitive_term_def lower_def isascii_def sigma_lower_def)
  have s: "sanitize_title_to_short_label [931, 913, 931, 913] 40 = [931, 913, 931, 913]"
    by (simp add: sanitize_title_to_short_label_def strip_def lstrip_def rstrip_def
        isspace_def)
  have d: "derive_label sigma_lower [[963, 945, 962]] [931, 913, 931, 913] (u ''explorer.exe'')
      = ([931, 913, 931, 913], None)"
    unfolding derive_label_def using n s by (simp add: BROWSERS_def APP_MAP_def u_def)
  show ?thesis unfolding p d using l by (simp add: SAFE_MASK_MESSAGE_def u_def)
qed

text \<open>
  C1, amended. A title whose lowered form contains a configured term (a non-empty
  one, as a contiguous run) gets the masked constant and no image key, whatever the
  executable is: the check comes before every other branch of \<open>derive_label\<close>. For a
  title of ASCII characters that covers every title that contains a term up to the
  case of its letters: a non-empty run of the title whose letters, made small, are a
  configured term.
\<close>

theorem masked_before_all:
  "(t \<in> set terms \<and> t \<noteq> [] \<and> sublist t (lower ul title) \<longrightarrow>
      derive_label ul terms title exe = (SAFE_MASK_MESSAGE, None))
   \<and> (isascii title \<and> sublist piece title \<and> piece \<noteq> []
       \<and> map ascii_lower piece \<in> set terms \<longrightarrow>
      derive_label ul terms title exe = (SAFE_MASK_MESSAGE, None))"
proof (intro conjI impI)
  assume "t \<in> set terms \<and> t \<noteq> [] \<and> sublist t (lower ul title)"
  then show "derive_label ul terms title exe = (SAFE_MASK_MESSAGE, None)"
    by (auto simp: derive_label_def title_has_sensitive_term_def any_term_in_iff)
next
  assume a: "isascii title \<and> sublist piece title \<and> piece \<noteq> []
       \<and> map ascii_lower piece \<in> set terms"
  then have "lower ul title = map ascii_lower title"
    by (simp add: lower_def)
  moreover from a have "sublist (map ascii_lower piece) (map ascii_lower title)"
    by (simp add: sublist_map_both)
  ultimately have "\<exists>t \<in> set terms. t \<noteq> [] \<and> sublist t (lower ul title)"
    using a by auto
  then show "derive_label ul terms title exe = (SAFE_MASK_MESSAGE, None)"
    by (simp add: derive_label_def title_has_sensitive_term_def any_term_in_iff)
qed

text \<open>
  The theorem at the title \<open>My SECRET plan\<close>, in a browser and in a mapped
  application.
\<close>

theorem masked_before_all_witness:
  "u ''secret'' \<in> set DEFAULT_SENSITIVE_TERMS \<and> u ''secret'' \<noteq> []
   \<and> sublist (u ''secret'') (lower id (u ''My SECRET plan''))
   \<and> isascii (u ''My SECRET plan'') \<and> sublist (u ''SECRET'') (u ''My SECRET plan'')
   \<and> u ''SECRET'' \<noteq> [] \<and> map ascii_lower (u ''SECRET'') \<in> set DEFAULT_SENSITIVE_TERMS
   \<and> derive_label id DEFAULT_SENSITIVE_TERMS (u ''My SECRET plan'') (u ''chrome.exe'')
       = (SAFE_MASK_MESSAGE, None)
   \<and> derive_label sigma_lower DEFAULT_SENSITIVE_TERMS (u ''My SECRET plan'') (u ''excel.exe'')
       = (SAFE_MASK_MESSAGE, None)"
proof -
  have h1: "u ''secret'' \<in> set DEFAULT_SENSITIVE_TERMS"
    by (simp add: DEFAULT_SENSITIVE_TERMS_def)
  have h2: "u ''secret'' \<noteq> []" by (simp add: u_def)
  have h3: "sublist (u ''secret'') (lower id (u ''My SECRET plan''))"
    unfolding str_in_sublist [symmetric] by (simp add: str_eval)
  have k1: "isascii (u ''My SECRET plan'')" by (simp add: str_eval)
  have k2: "sublist (u ''SECRET'') (u ''My SECRET plan'')"
    unfolding str_in_sublist [symmetric] by (simp add: u_def)
  have k3: "u ''SECRET'' \<noteq> []" by (simp add: u_def)
  have k4: "map ascii_lower (u ''SECRET'') \<in> set DEFAULT_SENSITIVE_TERMS"
    by (simp add: str_eval)
  from masked_before_all [of "u ''secret''" DEFAULT_SENSITIVE_TERMS id "u ''My SECRET plan''"
      "u ''chrome.exe''" "u ''SECRET''"]
    masked_before_all [of "u ''secret''" DEFAULT_SENSITIVE_TERMS sigma_lower
      "u ''My SECRET plan''" "u ''excel.exe''" "u ''SECRET''"]
    h1 h2 h3 k1 k2 k3 k4
  show ?thesis by simp
qed

text \<open>
  C2 does not hold as stated: \<open>derive_label\<close> tests \<open>not title\<close>, which only the empty
  title passes. A title of one space in a browser goes on to the browser branch and
  comes back as \<open>Browsing Idle\<close>.
\<close>

theorem blank_title_not_idle:
  "list_all isspace (u '' '')
   \<and> \<not> title_has_sensitive_term id DEFAULT_SENSITIVE_TERMS (u '' '')
   \<and> derive_label id DEFAULT_SENSITIVE_TERMS (u '' '') (u ''chrome.exe'') = (u ''Browsing Idle'', None)
   \<and> derive_label id DEFAULT_SENSITIVE_TERMS (u '' '') (u ''chrome.exe'') \<noteq> (SAFE_IDLE_MESSAGE, None)"
proof -
  have a: "list_all isspace (u '' '')" by (simp add: str_eval)
  have b: "\<not> title_has_sensitive_term id DEFAULT_SENSITIVE_TERMS (u '' '')"
    by (simp add: str_eval)
  have c: "re_search DOMAIN_RE (u '' '') = None"
    by (rule no_dot_no_host) (simp add: u_def)
  have d: "sanitize_title_to_short_label (u '' '') 40 = SAFE_IDLE_MESSAGE"
    using a by (rule sanitize_blank)
  have e: "derive_label id DEFAULT_SENSITIVE_TERMS (u '' '') (u ''chrome.exe'') = (u ''Browsing Idle'', None)"
    unfolding derive_label_def using b c d by (simp add: str_eval SAFE_IDLE_MESSAGE_def)
  show ?thesis using a b e by (simp add: SAFE_IDLE_MESSAGE_def u_def)
qed

text \<open>
  C2, amended. A title without a sensitive term gets the idle constant for every
  executable when it is empty, and when it is made of whitespace only and the
  executable is neither a browser nor a key of the application map (the sanitizer
  trims it to nothing and falls back to the idle constant).
\<close>

theorem blank_title_idle:
  "\<not> title_has_sensitive_term ul terms title \<Longrightarrow> list_all isspace title \<Longrightarrow>
   title = [] \<or> (exe \<notin> set BROWSERS \<and> map_of APP_MAP exe = None) \<Longrightarrow>
   derive_label ul terms title exe = (SAFE_IDLE_MESSAGE, None)"
  by (auto simp: derive_label_def sanitize_blank)

text \<open>
  The theorem at a title of three spaces and an executable outside both tables, and
  at the empty title in a browser.
\<close>

theorem blank_title_idle_witness:
  "\<not> title_has_sensitive_term id DEFAULT_SENSITIVE_TERMS (u ''   '')
   \<and> list_all isspace (u ''   '')
   \<and> u ''explorer.exe'' \<notin> set BROWSERS \<and> map_of APP_MAP (u ''explorer.exe'') = None
   \<and> derive_label id DEFAULT_SENSITIVE_TERMS (u ''   '') (u ''explorer.exe'') = (SAFE_IDLE_MESSAGE, None)
   \<and> \<not> title_has_sensitive_term id DEFAULT_SENSITIVE_TERMS []
   \<and> derive_label id DEFAULT_SENSITIVE_TERMS [] (u ''chrome.exe'') = (SAFE_IDLE_MESSAGE, None)"
proof -
  have a: "\<not> title_has_sensitive_term id DEFAULT_SENSITIVE_TERMS (u ''   '')"
    by (simp add: str_eval)
  have b: "list_all isspace (u ''   '')" by (simp add: str_eval)
  have c: "u ''explorer.exe'' \<notin> set BROWSERS" by (simp add: str_eval)
  have d: "map_of APP_MAP (u ''explorer.exe'') = None" by (simp add: APP_MAP_def u_def)
  have e: "\<not> title_has_sensitive_term id DEFAULT_SENSITIVE_TERMS []"
    by (simp add: str_eval)
  have f: "list_all isspace []" by simp
  from blank_title_idle [OF a b, of "u ''explorer.exe''"]
    blank_title_idle [OF e f, of "u ''chrome.exe''"] a b c d e
  show ?thesis by simp
qed

text \<open>
  C3 does not hold as stated: the sanitizer cuts the title to 40 characters, and
  \<open>derive_label\<close> puts the 9 characters of \<open>Browsing \<close> in front afterwards. A title
  of 43 characters gives a label of 49.
\<close>

theorem browser_fallback_longer_than_40:
  "u ''The quick brown fox jumps over the lazy dog'' \<noteq> []
   \<and> \<not> title_has_sensitive_term id DEFAULT_SENSITIVE_TERMS
         (u ''The quick brown fox jumps over the lazy dog'')
   \<and> u ''chrome.exe'' \<in> set BROWSERS
   \<and> re_search DOMAIN_RE (u ''The quick brown fox jumps over the lazy dog'') = None
   \<and> derive_label id DEFAULT_SENSITIVE_TERMS
         (u ''The quick brown fox jumps over the lazy dog'') (u ''chrome.exe'')
       = (u ''Browsing The quick brown fox jumps over the lazy'' @ [8230], None)
   \<and> length (fst (derive_label id DEFAULT_SENSITIVE_TERMS
         (u ''The quick brown fox jumps over the lazy dog'') (u ''chrome.exe''))) = 49"
proof -
  let ?t = "u ''The quick brown fox jumps over the lazy dog''"
  have a: "?t \<noteq> []" by (simp add: u_def)
  have b: "\<not> title_has_sensitive_term id DEFAULT_SENSITIVE_TERMS ?t"
    by (simp add: str_eval)
  have c: "u ''chrome.exe'' \<in> set BROWSERS" by (simp add: str_eval)
  have d: "re_search DOMAIN_RE ?t = None"
    by (rule no_dot_no_host) (simp add: u_def)
  have e: "sanitize_title_to_short_label ?t 40 = u ''The quick brown fox jumps over the lazy'' @ [8230]"
    by (simp add: sanitize_title_to_short_label_def slice_to_def str_eval)
  have f: "derive_label id DEFAULT_SENSITIVE_TERMS ?t (u ''chrome.exe'')
       = (u ''Browsing The quick brown fox jumps over the lazy'' @ [8230], None)"
    unfolding derive_label_def using a b c d e by (simp add: u_def)
  show ?thesis unfolding f using a b c d by (simp add: u_def)
qed

text \<open>
  C3, amended. For a non-empty title without a sensitive term and without a host
  name, in a browser, the label is \<open>Browsing \<close> followed by the sanitized title; the
  sanitized title has at most 40 characters (the ellipsis counted), the label at most
  49.
\<close>

theorem browser_fallback_label:
  "\<not> title_has_sensitive_term ul terms title \<Longrightarrow> title \<noteq> [] \<Longrightarrow> exe \<in> set BROWSERS \<Longrightarrow>
   re_search DOMAIN_RE title = None \<Longrightarrow>
   derive_label ul terms title exe = (u ''Browsing '' @ sanitize_title_to_short_label title 40, None)
   \<and> length (sanitize_title_to_short_label title 40) \<le> 40
   \<and> length (fst (derive_label ul terms title exe)) \<le> 49"
  using length_sanitize_40 [of title] by (simp add: derive_label_def u_def)

text \<open>
  The theorem at the title \<open>New   Tab\<close> in Firefox.
\<close>

theorem browser_fallback_label_witness:
  "\<not> title_has_sensitive_term id DEFAULT_SENSITIVE_TERMS (u ''New   Tab'')
   \<and> u ''New   Tab'' \<noteq> [] \<and> u ''firefox.exe'' \<in> set BROWSERS
   \<and> re_search DOMAIN_RE (u ''New   Tab'') = None
   \<and> derive_label id DEFAULT_SENSITIVE_TERMS (u ''New   Tab'') (u ''firefox.exe'')
       = (u ''Browsing New Tab'', None)
   \<and> length (fst (derive_label id DEFAULT_SENSITIVE_TERMS (u ''New   Tab'') (u ''firefox.exe''))) \<le> 49"
proof -
  let ?t = "u ''New   Tab''"
  have a: "\<not> title_has_sensitive_term id DEFAULT_SENSITIVE_TERMS ?t"
    by (simp add: str_eval)
  have b: "?t \<noteq> []" by (simp add: u_def)
  have c: "u ''firefox.exe'' \<in> set BROWSERS" by (simp add: str_eval)
  have d: "re_search DOMAIN_RE ?t = None"
    by (rule no_dot_no_host) (simp add: u_def)
  have e: "sanitize_title_to_short_label ?t 40 = u ''New Tab''"
    by (simp add: sanitize_title_to_short_label_def slice_to_def str_eval)
  from browser_fallback_label [OF a b c d] a b c d e show ?thesis by (simp add: u_def)
qed

text \<open>
  C9 does not hold as stated: the mapped label is returned whatever the title is, so
  nothing keeps a title from sharing text with it. The title \<open>Excel\<close> occurs in the
  label of \<open>excel.exe\<close>.
\<close>

theorem mapped_label_contains_title:
  "u ''Excel'' \<noteq> []
   \<and> \<not> title_has_sensitive_term id DEFAULT_SENSITIVE_TERMS (u ''Excel'')
   \<and> u ''excel.exe'' \<notin> set BROWSERS
   \<and> map_of APP_MAP (u ''excel.exe'') = Some (u ''Working in Excel'')
   \<and> derive_label id DEFAULT_SENSITIVE_TERMS (u ''Excel'') (u ''excel.exe'')
       = (u ''Working in Excel'', None)
   \<and> str_in (u ''Excel'') (u ''Excel'')
   \<and> str_in (u ''Excel'') (fst (derive_label id DEFAULT_SENSITIVE_TERMS (u ''Excel'') (u ''excel.exe'')))"
proof -
  have a: "u ''Excel'' \<noteq> []" by (simp add: u_def)
  have b: "\<not> title_has_sensitive_term id DEFAULT_SENSITIVE_TERMS (u ''Excel'')"
    by (simp add: str_eval)
  have c: "u ''excel.exe'' \<notin> set BROWSERS" by (simp add: str_eval)
  have d: "map_of APP_MAP (u ''excel.exe'') = Some (u ''Working in Excel'')"
    by (simp add: APP_MAP_def u_def)
  have e: "derive_label id DEFAULT_SENSITIVE_TERMS (u ''Excel'') (u ''excel.exe'')
       = (u ''Working in Excel'', None)"
    unfolding derive_label_def using a b c d by simp
  show ?thesis unfolding e using a b c d by (simp add: u_def)
qed

text \<open>
  C9, amended. For a non-empty title without a sensitive term and an executable that
  is a key of the application map (no key of the map is a browser), the result is the
  mapped label and no image key: the label depends on the executable alone and is the
  same for every such title.
\<close>

theorem mapped_app_label:
  "\<not> title_has_sensitive_term ul terms title \<Longrightarrow> title \<noteq> [] \<Longrightarrow>
   map_of APP_MAP exe = Some label \<Longrightarrow>
   derive_label ul terms title exe = (label, None)"
  by (simp add: derive_label_def app_not_browser)

text \<open>
  The theorem at a Notepad window.
\<close>

theorem mapped_app_label_witness:
  "\<not> title_has_sensitive_term id DEFAULT_SENSITIVE_TERMS (u ''notes.txt - Notepad'')
   \<and> u ''notes.txt - Notepad'' \<noteq> []
   \<and> map_of APP_MAP (u ''notepad.exe'') = Some (u ''Editing Text'')
   \<and> derive_label id DEFAULT_SENSITIVE_TERMS (u ''notes.txt - Notepad'') (u ''notepad.exe'')
       = (u ''Editing Text'', None)"
proof -
  have a: "\<not> title_has_sensitive_term id DEFAULT_SENSITIVE_TERMS (u ''notes.txt - Notepad'')"
    by (simp add: str_eval)
  have b: "u ''notes.txt - Notepad'' \<noteq> []" by (simp add: u_def)
  have c: "map_of APP_MAP (u ''notepad.exe'') = Some (u ''Editing Text'')"
    by (simp add: APP_MAP_def u_def)
  from mapped_app_label [OF a b c] a b c show ?thesis by simp
qed

section \<open>Facts about the session\<close>

text \<open>
  One round of the loop of \<open>safe_update\<close>: it ends when the update returned, and
  goes round again, with the backoff doubled, after a pipe failure whose reconnect
  attempt returned or raised one of the three exceptions its handler names.
\<close>

lemma loop_ok:
  "update w st img s = (Inr (), s1) \<Longrightarrow> safe_update_loop w st img b s = Some (Inr (), s1)"
  by (subst safe_update_loop.simps) simp

lemma loop_pipe:
  "update w st img s = (Inl e, s1) \<Longrightarrow> e = InvalidPipe \<or> e = ConnectionRefusedError \<Longrightarrow>
   connect w (sleep b (s1\<lparr>connected := False\<rparr>)) = (r, s3) \<Longrightarrow>
   r = Inr () \<or> r = Inl InvalidID \<or> r = Inl InvalidPipe \<or> r = Inl ConnectionRefusedError \<Longrightarrow>
   safe_update_loop w st img b s = safe_update_loop w st img (min 16 (b * 2)) s3"
  by (subst safe_update_loop.simps) (auto simp: max_backoff_def Let_def)

text \<open>
  Every function of the session keeps \<open>rpc_known\<close>, and a new client has it.
\<close>

lemma rpc_known_new_client: "rpc_known new_client"
  by (simp add: rpc_known_def new_client_def)

lemma rpc_known_connect: "rpc_known s \<Longrightarrow> rpc_known (snd (connect w s))"
  by (auto simp: rpc_known_def connect_def chan_def Let_def split: option.splits)

lemma rpc_known_update: "rpc_known s \<Longrightarrow> rpc_known (snd (update w st img s))"
  by (auto simp: rpc_known_def update_def connect_def chan_def Let_def split: option.splits)

lemma rpc_known_sleep: "rpc_known s \<Longrightarrow> rpc_known (sleep d (s\<lparr>connected := c\<rparr>)) \<and> rpc_known (sleep d s)"
  by (auto simp: rpc_known_def sleep_def split: option.splits)

lemma rpc_known_close: "rpc_known (snd (close w s))"
  by (auto simp: rpc_known_def close_def chan_def Let_def split: option.splits prod.splits sum.splits)

lemma rpc_known_loop:
  assumes "safe_update_loop w st img b s = Some y"
  shows "rpc_known s \<longrightarrow> rpc_known (snd y)"
proof (rule safe_update_loop.raw_induct
    [where P = "\<lambda>w st img b s y. rpc_known s \<longrightarrow> rpc_known (snd y)", OF _ assms],
    goal_cases)
  case (1 loop w st img b s y)
  show ?case
  proof
    assume k: "rpc_known s"
    obtain ur s1 where Pair: "update w st img s = (ur, s1)" by (cases "update w st img s")
    have k1: "rpc_known s1"
      using rpc_known_update [OF k, of w st img] Pair by simp
    let ?s2 = "sleep b (s1\<lparr>connected := False\<rparr>)"
    have k2: "rpc_known ?s2" using k1 rpc_known_sleep by blast
    obtain cr s3 where C: "connect w ?s2 = (cr, s3)" by (cases "connect w ?s2")
    have k3: "rpc_known s3" using rpc_known_connect [OF k2, of w] C by simp
    have k4: "rpc_known (sleep b s1)" using k1 rpc_known_sleep by blast
    show "rpc_known (snd y)"
    proof (cases ur)
      case (Inr x)
      with 1(2) Pair k1 show ?thesis by (cases y) auto
    next
      case (Inl e)
      from 1(2) Pair Inl C k1 k3 k4 show ?thesis
        by (cases y) (auto simp: Let_def split: if_splits sum.splits dest!: 1(1))
    qed
  qed
qed

lemmas session_eval = update_def connect_def chan_def sleep_def payload_image_def
  scripted_def update_fails_def n_updates_def n_connects_def new_client_def

section \<open>Retry and backoff\<close>

text \<open>
  C5 does not hold as stated for the reconnect attempt: the handler of a pipe failure
  calls \<open>connect\<close> under \<open>except (InvalidID, InvalidPipe, ConnectionRefusedError):
  continue\<close>, so an \<open>InvalidID\<close> raised there is caught and the loop goes on. Against a
  channel whose first update fails with \<open>InvalidPipe\<close> and whose reconnect then fails
  with \<open>InvalidID\<close>, \<open>safe_update\<close> makes a further attempt and returns normally.
\<close>

theorem reconnect_invalid_id_swallowed:
  "safe_update (scripted [None, None, Some InvalidPipe, None, Some InvalidID]) (u ''Idle'') None
     new_client
   = Some (Inr (),
       \<lparr>rpc = Some 6, connected = True,
        trace =
          [Call Construct None, Call (Connect 0) None,
           Call (Update 0 (u ''Idle'') None) (Some InvalidPipe),
           Sleep 1, Call Construct None, Call (Connect 4) (Some InvalidID),
           Call Construct None, Call (Connect 6) None,
           Call (Update 6 (u ''Idle'') None) None]\<rparr>)"
proof -
  let ?w = "scripted [None, None, Some InvalidPipe, None, Some InvalidID]"
  let ?s1 = "\<lparr>rpc = Some 0, connected = True,
        trace = [Call Construct None, Call (Connect 0) None,
           Call (Update 0 (u ''Idle'') None) (Some InvalidPipe)]\<rparr>"
  let ?s3 = "\<lparr>rpc = Some 4, connected = False,
        trace = [Call Construct None, Call (Connect 0) None,
           Call (Update 0 (u ''Idle'') None) (Some InvalidPipe),
           Sleep 1, Call Construct None, Call (Connect 4) (Some InvalidID)]\<rparr>"
  have a: "update ?w (u ''Idle'') None new_client = (Inl InvalidPipe, ?s1)"
    by (simp add: session_eval)
  have b: "connect ?w (sleep 1 (?s1\<lparr>connected := False\<rparr>)) = (Inl InvalidID, ?s3)"
    by (simp add: session_eval)
  have c: "update ?w (u ''Idle'') None ?s3 = (Inr (),
       \<lparr>rpc = Some 6, connected = True,
        trace =
          [Call Construct None, Call (Connect 0) None,
           Call (Update 0 (u ''Idle'') None) (Some InvalidPipe),
           Sleep 1, Call Construct None, Call (Connect 4) (Some InvalidID),
           Call Construct None, Call (Connect 6) None,
           Call (Update 6 (u ''Idle'') None) None]\<rparr>)"
    by (simp add: session_eval)
  have "safe_update_loop ?w (u ''Idle'') None 1 new_client
      = safe_update_loop ?w (u ''Idle'') None (min 16 (1 * 2)) ?s3"
    by (rule loop_pipe [OF a _ b]) simp_all
  also have "\<dots> = Some (Inr (),
       \<lparr>rpc = Some 6, connected = True,
        trace =
          [Call Construct None, Call (Connect 0) None,
           Call (Update 0 (u ''Idle'') None) (Some InvalidPipe),
           Sleep 1, Call Construct None, Call (Connect 4) (Some InvalidID),
           Call Construct None, Call (Connect 6) None,
           Call (Update 6 (u ''Idle'') None) None]\<rparr>)"
    by (rule loop_ok [OF c])
  finally show ?thesis
    by (simp add: safe_update_def)
qed

text \<open>
  C5, amended. In every round of the loop, an \<open>InvalidID\<close> raised by the update
  attempt (the call of \<open>update\<close>, with the \<open>connect\<close> it makes when the session is
  not connected) is raised to the caller at once: the result carries the state the
  update left, so nothing was slept and no call was made after the failure. That
  holds in particular for the first attempt of \<open>safe_update\<close>. An \<open>InvalidID\<close> raised
  by the reconnect attempt after a pipe failure is caught, and the loop goes on to the
  next round with the doubled backoff.
\<close>

theorem invalid_id_not_retried:
  "(update w st img s = (Inl InvalidID, s1) \<longrightarrow>
      safe_update_loop w st img b s = Some (Inl InvalidID, s1)
      \<and> safe_update w st img s = Some (Inl InvalidID, s1))
   \<and> (update w st img s = (Inl e, s1) \<and> (e = InvalidPipe \<or> e = ConnectionRefusedError)
       \<and> connect w (sleep b (s1\<lparr>connected := False\<rparr>)) = (Inl InvalidID, s3) \<longrightarrow>
      safe_update_loop w st img b s = safe_update_loop w st img (min 16 (b * 2)) s3)"
proof (intro conjI impI)
  assume "update w st img s = (Inl InvalidID, s1)"
  then show "safe_update_loop w st img b s = Some (Inl InvalidID, s1)"
    by (subst safe_update_loop.simps) simp
next
  assume "update w st img s = (Inl InvalidID, s1)"
  then show "safe_update w st img s = Some (Inl InvalidID, s1)"
    unfolding safe_update_def by (subst safe_update_loop.simps) simp
next
  assume "update w st img s = (Inl e, s1) \<and> (e = InvalidPipe \<or> e = ConnectionRefusedError)
       \<and> connect w (sleep b (s1\<lparr>connected := False\<rparr>)) = (Inl InvalidID, s3)"
  then show "safe_update_loop w st img b s = safe_update_loop w st img (min 16 (b * 2)) s3"
    by (subst safe_update_loop.simps) (auto simp: max_backoff_def Let_def)
qed

text \<open>
  The theorem at a channel that rejects the first \<open>connect\<close> with \<open>InvalidID\<close>, and
  at the channel of the counterexample.
\<close>

theorem invalid_id_not_retried_witness:
  "update (scripted [None, Some InvalidID]) (u ''Idle'') None new_client
     = (Inl InvalidID,
        \<lparr>rpc = Some 0, connected = False,
         trace = [Call Construct None, Call (Connect 0) (Some InvalidID)]\<rparr>)
   \<and> safe_update (scripted [None, Some InvalidID]) (u ''Idle'') None new_client
     = Some (Inl InvalidID,
        \<lparr>rpc = Some 0, connected = False,
         trace = [Call Construct None, Call (Connect 0) (Some InvalidID)]\<rparr>)
   \<and> safe_update_loop (scripted [None, None, Some InvalidPipe, None, Some InvalidID])
         (u ''Idle'') None 1 new_client
     = safe_update_loop (scripted [None, None, Some InvalidPipe, None, Some InvalidID])
         (u ''Idle'') None 2
         \<lparr>rpc = Some 4, connected = False,
          trace = [Call Construct None, Call (Connect 0) None,
            Call (Update 0 (u ''Idle'') None) (Some InvalidPipe),
            Sleep 1, Call Construct None, Call (Connect 4) (Some InvalidID)]\<rparr>"
proof -
  let ?w1 = "scripted [None, Some InvalidID]"
  let ?w2 = "scripted [None, None, Some InvalidPipe, None, Some InvalidID]"
  let ?s1 = "\<lparr>rpc = Some 0, connected = False,
         trace = [Call Construct None, Call (Connect 0) (Some InvalidID)]\<rparr>"
  let ?s2 = "\<lparr>rpc = Some 0, connected = True,
        trace = [Call Construct None, Call (Connect 0) None,
           Call (Update 0 (u ''Idle'') None) (Some InvalidPipe)]\<rparr>"
  let ?s3 = "\<lparr>rpc = Some 4, connected = False,
        trace = [Call Construct None, Call (Connect 0) None,
           Call (Update 0 (u ''Idle'') None) (Some InvalidPipe),
           Sleep 1, Call Construct None, Call (Connect 4) (Some InvalidID)]\<rparr>"
  have a: "update ?w1 (u ''Idle'') None new_client = (Inl InvalidID, ?s1)"
    by (simp add: session_eval)
  have b: "update ?w2 (u ''Idle'') None new_client = (Inl InvalidPipe, ?s2)"
    by (simp add: session_eval)
  have c: "connect ?w2 (sleep 1 (?s2\<lparr>connected := False\<rparr>)) = (Inl InvalidID, ?s3)"
    by (simp add: session_eval)
  from invalid_id_not_retried [of ?w1 "u ''Idle''" None new_client ?s1 1] a
  have 1: "safe_update ?w1 (u ''Idle'') None new_client = Some (Inl InvalidID, ?s1)"
    by simp
  from invalid_id_not_retried [of ?w2 "u ''Idle''" None new_client ?s2 1 InvalidPipe ?s3] b c
  have 2: "safe_update_loop ?w2 (u ''Idle'') None 1 new_client
      = safe_update_loop ?w2 (u ''Idle'') None 2 ?s3"
    by simp
  from a 1 2 show ?thesis by simp
qed

text \<open>
  C6. Let every constructor and \<open>connect\<close> call of the channel succeed, and let its
  \<open>update\<close> raise a pipe failure (\<open>InvalidPipe\<close> or \<open>ConnectionRefusedError\<close>) the first
  and the second time it is called and return the third time. Then \<open>safe_update\<close> on a
  new client returns normally; the history is the one written out below, with
  \<open>update\<close> called exactly 3 times, \<open>connect\<close> exactly 3 times, and exactly the two
  sleeps 1 and 2.
\<close>

theorem two_pipe_failures_then_success:
  assumes construct_ok: "\<And>h. w h Construct = None"
    and connect_ok: "\<And>h i. w h (Connect i) = None"
    and first: "\<And>h i st' img'. n_updates h = 0 \<Longrightarrow> w h (Update i st' img') = Some e1"
    and second: "\<And>h i st' img'. n_updates h = 1 \<Longrightarrow> w h (Update i st' img') = Some e2"
    and third: "\<And>h i st' img'. n_updates h = 2 \<Longrightarrow> w h (Update i st' img') = None"
    and e1: "e1 = InvalidPipe \<or> e1 = ConnectionRefusedError"
    and e2: "e2 = InvalidPipe \<or> e2 = ConnectionRefusedError"
  shows "\<exists>s'. safe_update w st img new_client = Some (Inr (), s')
    \<and> trace s' =
        [Call Construct None, Call (Connect 0) None,
         Call (Update 0 st (payload_image img)) (Some e1), Sleep 1,
         Call Construct None, Call (Connect 4) None,
         Call (Update 4 st (payload_image img)) (Some e2), Sleep 2,
         Call Construct None, Call (Connect 8) None,
         Call (Update 8 st (payload_image img)) None]
    \<and> sleeps (trace s') = [1, 2]
    \<and> n_updates (trace s') = 3 \<and> n_connects (trace s') = 3
    \<and> connected s' \<and> rpc s' = Some 8"
proof -
  let ?p = "payload_image img"
  let ?h1 = "[Call Construct None, Call (Connect 0) None, Call (Update 0 st ?p) (Some e1)]"
  let ?h3 = "?h1 @ [Sleep 1, Call Construct None, Call (Connect 4) None]"
  let ?h4 = "?h3 @ [Call (Update 4 st ?p) (Some e2)]"
  let ?h5 = "?h4 @ [Sleep 2, Call Construct None, Call (Connect 8) None]"
  let ?h6 = "?h5 @ [Call (Update 8 st ?p) None]"
  let ?s1 = "\<lparr>rpc = Some 0, connected = True, trace = ?h1\<rparr>"
  let ?s3 = "\<lparr>rpc = Some 4, connected = True, trace = ?h3\<rparr>"
  let ?s4 = "\<lparr>rpc = Some 4, connected = True, trace = ?h4\<rparr>"
  let ?s5 = "\<lparr>rpc = Some 8, connected = True, trace = ?h5\<rparr>"
  let ?s6 = "\<lparr>rpc = Some 8, connected = True, trace = ?h6\<rparr>"
  have a: "update w st img new_client = (Inl e1, ?s1)"
    by (simp add: update_def connect_def chan_def new_client_def construct_ok connect_ok
        first n_updates_def)
  have b: "connect w (sleep 1 (?s1\<lparr>connected := False\<rparr>)) = (Inr (), ?s3)"
    by (simp add: connect_def chan_def sleep_def construct_ok connect_ok)
  have c: "update w st img ?s3 = (Inl e2, ?s4)"
    by (simp add: update_def chan_def second n_updates_def)
  have d: "connect w (sleep 2 (?s4\<lparr>connected := False\<rparr>)) = (Inr (), ?s5)"
    by (simp add: connect_def chan_def sleep_def construct_ok connect_ok)
  have e: "update w st img ?s5 = (Inr (), ?s6)"
    by (simp add: update_def chan_def third n_updates_def)
  have "safe_update w st img new_client = safe_update_loop w st img 1 new_client"
    by (simp add: safe_update_def)
  also have "\<dots> = safe_update_loop w st img (min 16 (1 * 2)) ?s3"
    by (rule loop_pipe [OF a e1 b]) simp
  also have "\<dots> = safe_update_loop w st img 2 ?s3"
    by simp
  also have "\<dots> = safe_update_loop w st img (min 16 (2 * 2)) ?s5"
    by (rule loop_pipe [OF c e2 d]) simp
  also have "\<dots> = Some (Inr (), ?s6)"
    by (rule loop_ok [OF e])
  finally have "safe_update w st img new_client = Some (Inr (), ?s6)" .
  then show ?thesis
    by (simp add: n_updates_def n_connects_def)
qed

text \<open>
  The theorem at the channel \<open>update_fails 2 InvalidPipe\<close>.
\<close>

theorem two_pipe_failures_then_success_witness:
  "\<exists>s'. safe_update (update_fails 2 InvalidPipe) (u ''Idle'') None new_client = Some (Inr (), s')
    \<and> trace s' =
        [Call Construct None, Call (Connect 0) None,
         Call (Update 0 (u ''Idle'') None) (Some InvalidPipe), Sleep 1,
         Call Construct None, Call (Connect 4) None,
         Call (Update 4 (u ''Idle'') None) (Some InvalidPipe), Sleep 2,
         Call Construct None, Call (Connect 8) None,
         Call (Update 8 (u ''Idle'') None) None]
    \<and> sleeps (trace s') = [1, 2]
    \<and> n_updates (trace s') = 3 \<and> n_connects (trace s') = 3
    \<and> connected s' \<and> rpc s' = Some 8"
  using two_pipe_failures_then_success
    [of "update_fails 2 InvalidPipe" InvalidPipe InvalidPipe "u ''Idle''" None]
  by (simp add: update_fails_def payload_image_def)

text \<open>
  The sleeps depend on which call fails. When it is the channel's \<open>connect\<close> that
  raises the pipe failure twice, the second failure is that of the reconnect attempt,
  which goes on to the next round without a sleep: there is the one sleep of 1.
\<close>

lemma connect_fails_twice_one_sleep:
  "safe_update (scripted [None, Some InvalidPipe, None, Some InvalidPipe]) (u ''Idle'') None
     new_client
   = Some (Inr (),
       \<lparr>rpc = Some 5, connected = True,
        trace =
          [Call Construct None, Call (Connect 0) (Some InvalidPipe), Sleep 1,
           Call Construct None, Call (Connect 3) (Some InvalidPipe),
           Call Construct None, Call (Connect 5) None,
           Call (Update 5 (u ''Idle'') None) None]\<rparr>)"
proof -
  let ?w = "scripted [None, Some InvalidPipe, None, Some InvalidPipe]"
  let ?s1 = "\<lparr>rpc = Some 0, connected = False,
        trace = [Call Construct None, Call (Connect 0) (Some InvalidPipe)]\<rparr>"
  let ?s3 = "\<lparr>rpc = Some 3, connected = False,
        trace = [Call Construct None, Call (Connect 0) (Some InvalidPipe), Sleep 1,
           Call Construct None, Call (Connect 3) (Some InvalidPipe)]\<rparr>"
  let ?s4 = "\<lparr>rpc = Some 5, connected = True,
        trace =
          [Call Construct None, Call (Connect 0) (Some InvalidPipe), Sleep 1,
           Call Construct None, Call (Connect 3) (Some InvalidPipe),
           Call Construct None, Call (Connect 5) None,
           Call (Update 5 (u ''Idle'') None) None]\<rparr>"
  have a: "update ?w (u ''Idle'') None new_client = (Inl InvalidPipe, ?s1)"
    by (simp add: session_eval)
  have b: "connect ?w (sleep 1 (?s1\<lparr>connected := False\<rparr>)) = (Inl InvalidPipe, ?s3)"
    by (simp add: session_eval Let_def)
  have c: "update ?w (u ''Idle'') None ?s3 = (Inr (), ?s4)"
    by (simp add: session_eval)
  have "safe_update_loop ?w (u ''Idle'') None 1 new_client
      = safe_update_loop ?w (u ''Idle'') None (min 16 (1 * 2)) ?s3"
    by (rule loop_pipe [OF a _ b]) simp_all
  also have "\<dots> = Some (Inr (), ?s4)"
    by (rule loop_ok [OF c])
  finally show ?thesis
    by (simp add: safe_update_def)
qed

section \<open>Teardown\<close>

text \<open>
  C7 does not hold as stated: \<open>close\<close> has a \<open>finally\<close> and no \<open>except\<close>. When the
  channel's \<open>clear\<close> raises \<open>InvalidPipe\<close> on a connected session, \<open>close\<close> resets the
  fields and raises \<open>InvalidPipe\<close> to its caller.
\<close>

theorem close_raises_clear_failure:
  "connect (scripted [None, None, Some InvalidPipe]) new_client
     = (Inr (), \<lparr>rpc = Some 0, connected = True,
                 trace = [Call Construct None, Call (Connect 0) None]\<rparr>)
   \<and> close (scripted [None, None, Some InvalidPipe])
       \<lparr>rpc = Some 0, connected = True, trace = [Call Construct None, Call (Connect 0) None]\<rparr>
     = (Inl InvalidPipe,
        \<lparr>rpc = None, connected = False,
         trace = [Call Construct None, Call (Connect 0) None,
                  Call (Clear 0) (Some InvalidPipe)]\<rparr>)"
  by (simp add: connect_def close_def chan_def scripted_def new_client_def)

text \<open>
  C7, amended. Whatever the channel does, \<open>close\<close> leaves the session disconnected
  (\<open>_rpc\<close> is \<open>None\<close>, \<open>_connected\<close> is false). It raises exactly the exception that
  the channel's \<open>clear\<close> raised, or that its \<open>close\<close> raised after \<open>clear\<close> returned:
  the failure is not swallowed inside \<open>close\<close>. It is the shutdown path of \<open>main\<close> that
  swallows it, when it is an \<open>Exception\<close>. After \<open>close\<close>, a \<open>connect\<close> opens the
  channel again: it returns with the session connected to a new object whenever the
  constructor and the channel's \<open>connect\<close> succeed.
\<close>

theorem close_resets_and_propagates:
  assumes "close w s = (r, s')"
  shows "rpc s' = None \<and> \<not> connected s'
    \<and> (r = Inl e \<longleftrightarrow>
         (\<exists>i. rpc s = Some i \<and>
            (w (trace s) (Clear i) = Some e
             \<or> w (trace s) (Clear i) = None
               \<and> w (trace s @ [Call (Clear i) None]) (Close i) = Some e)))
    \<and> main_finally w s = (if \<exists>x. r = Inl x \<and> \<not> is_Exception x then r else Inr (), s')
    \<and> (w (trace s') Construct = None
        \<and> w (trace s' @ [Call Construct None]) (Connect (length (trace s'))) = None \<longrightarrow>
       connect w s' =
         (Inr (), \<lparr>rpc = Some (length (trace s')), connected = True,
                   trace = trace s' @ [Call Construct None,
                                       Call (Connect (length (trace s'))) None]\<rparr>))"
proof (intro conjI)
  from assms show f: "rpc s' = None" "\<not> connected s'"
    by (auto simp: close_def split: prod.splits)
  from assms show "r = Inl e \<longleftrightarrow>
         (\<exists>i. rpc s = Some i \<and>
            (w (trace s) (Clear i) = Some e
             \<or> w (trace s) (Clear i) = None
               \<and> w (trace s @ [Call (Clear i) None]) (Close i) = Some e))"
    by (auto simp: close_def chan_def Let_def split: option.splits)
  from assms show "main_finally w s = (if \<exists>x. r = Inl x \<and> \<not> is_Exception x then r else Inr (), s')"
    by (cases r) (auto simp: main_finally_def)
  show "w (trace s') Construct = None
        \<and> w (trace s' @ [Call Construct None]) (Connect (length (trace s'))) = None \<longrightarrow>
       connect w s' =
         (Inr (), \<lparr>rpc = Some (length (trace s')), connected = True,
                   trace = trace s' @ [Call Construct None,
                                       Call (Connect (length (trace s'))) None]\<rparr>)"
    using f by (cases s') (auto simp: connect_def chan_def Let_def)
qed

text \<open>
  The theorem at the session and channel of the counterexample.
\<close>

theorem close_resets_and_propagates_witness:
  "close (scripted [None, None, Some InvalidPipe])
       \<lparr>rpc = Some 0, connected = True, trace = [Call Construct None, Call (Connect 0) None]\<rparr>
     = (Inl InvalidPipe,
        \<lparr>rpc = None, connected = False,
         trace = [Call Construct None, Call (Connect 0) None,
                  Call (Clear 0) (Some InvalidPipe)]\<rparr>)
   \<and> main_finally (scripted [None, None, Some InvalidPipe])
       \<lparr>rpc = Some 0, connected = True, trace = [Call Construct None, Call (Connect 0) None]\<rparr>
     = (Inr (),
        \<lparr>rpc = None, connected = False,
         trace = [Call Construct None, Call (Connect 0) None,
                  Call (Clear 0) (Some InvalidPipe)]\<rparr>)
   \<and> connect (scripted [None, None, Some InvalidPipe])
        \<lparr>rpc = None, connected = False,
         trace = [Call Construct None, Call (Connect 0) None,
                  Call (Clear 0) (Some InvalidPipe)]\<rparr>
     = (Inr (),
        \<lparr>rpc = Some 3, connected = True,
         trace = [Call Construct None, Call (Connect 0) None,
                  Call (Clear 0) (Some InvalidPipe),
                  Call Construct None, Call (Connect 3) None]\<rparr>)"
proof -
  let ?w = "scripted [None, None, Some InvalidPipe]"
  let ?s = "\<lparr>rpc = Some 0, connected = True,
             trace = [Call Construct None, Call (Connect 0) None]\<rparr>"
  let ?s' = "\<lparr>rpc = None, connected = False,
              trace = [Call Construct None, Call (Connect 0) None,
                       Call (Clear 0) (Some InvalidPipe)]\<rparr>"
  have h: "close ?w ?s = (Inl InvalidPipe, ?s')"
    by (simp add: close_def chan_def scripted_def)
  from close_resets_and_propagates [OF h, of InvalidPipe] h show ?thesis
    by (simp add: is_Exception_def scripted_def)
qed

text \<open>
  C10. When \<open>close\<close> is left, returning or raising, \<open>_rpc\<close> is \<open>None\<close> and \<open>_connected\<close>
  is false. So the next \<open>connect\<close> does not return early: its first step is a
  constructor call, the object the session holds when \<open>connect\<close> returns is the one
  that call made, and the session never holds the object it had before \<open>close\<close> again.
\<close>

theorem close_then_connect_fresh:
  assumes "close w s = (r, s')" and "rpc_known s"
  shows "rpc s' = None \<and> \<not> connected s'
    \<and> take (Suc (length (trace s'))) (trace (snd (connect w s')))
        = trace s' @ [Call Construct (w (trace s') Construct)]
    \<and> (fst (connect w s') = Inr () \<longrightarrow>
         connected (snd (connect w s')) \<and> rpc (snd (connect w s')) = Some (length (trace s')))
    \<and> (rpc s = Some i \<longrightarrow> rpc (snd (connect w s')) \<noteq> Some i)"
proof -
  from assms(1) have f: "rpc s' = None" "\<not> connected s'"
    by (auto simp: close_def split: prod.splits)
  from assms(1) have g: "length (trace s) \<le> length (trace s')"
    by (auto simp: close_def chan_def Let_def split: option.splits)
  have t: "take (Suc (length (trace s'))) (trace (snd (connect w s')))
        = trace s' @ [Call Construct (w (trace s') Construct)]"
    using f by (auto simp: connect_def chan_def Let_def split: option.splits)
  have c: "fst (connect w s') = Inr () \<longrightarrow>
         connected (snd (connect w s')) \<and> rpc (snd (connect w s')) = Some (length (trace s'))"
    using f by (auto simp: connect_def chan_def Let_def split: option.splits)
  have n: "rpc (snd (connect w s')) = None \<or> rpc (snd (connect w s')) = Some (length (trace s'))"
    using f by (auto simp: connect_def chan_def Let_def split: option.splits)
  have "rpc s = Some i \<longrightarrow> rpc (snd (connect w s')) \<noteq> Some i"
    using n g assms(2) by (auto simp: rpc_known_def)
  with f t c show ?thesis by blast
qed

text \<open>
  The theorem at a session whose channel fails in \<open>clear\<close>.
\<close>

theorem close_then_connect_fresh_witness:
  "close (scripted [None, None, Some InvalidPipe])
       \<lparr>rpc = Some 0, connected = True, trace = [Call Construct None, Call (Connect 0) None]\<rparr>
     = (Inl InvalidPipe,
        \<lparr>rpc = None, connected = False,
         trace = [Call Construct None, Call (Connect 0) None,
                  Call (Clear 0) (Some InvalidPipe)]\<rparr>)
   \<and> rpc_known \<lparr>rpc = Some 0, connected = True,
                 trace = [Call Construct None, Call (Connect 0) None]\<rparr>
   \<and> take 4 (trace (snd (connect (scripted [None, None, Some InvalidPipe])
        \<lparr>rpc = None, connected = False,
         trace = [Call Construct None, Call (Connect 0) None,
                  Call (Clear 0) (Some InvalidPipe)]\<rparr>)))
     = [Call Construct None, Call (Connect 0) None, Call (Clear 0) (Some InvalidPipe),
        Call Construct None]
   \<and> rpc (snd (connect (scripted [None, None, Some InvalidPipe])
        \<lparr>rpc = None, connected = False,
         trace = [Call Construct None, Call (Connect 0) None,
                  Call (Clear 0) (Some InvalidPipe)]\<rparr>)) \<noteq> Some 0"
proof -
  let ?w = "scripted [None, None, Some InvalidPipe]"
  let ?s = "\<lparr>rpc = Some 0, connected = True,
             trace = [Call Construct None, Call (Connect 0) None]\<rparr>"
  let ?s' = "\<lparr>rpc = None, connected = False,
              trace = [Call Construct None, Call (Connect 0) None,
                       Call (Clear 0) (Some InvalidPipe)]\<rparr>"
  have h: "close ?w ?s = (Inl InvalidPipe, ?s')"
    by (simp add: close_def chan_def scripted_def)
  have k: "rpc_known ?s"
    by (simp add: rpc_known_def)
  from close_then_connect_fresh [OF h k, of 0] h k show ?thesis
    by (simp add: scripted_def eval_nat_numeral)
qed

end
